theory Spec2Isabelle
  imports Main "HOL-Library.Word"
begin

section \<open>Rock-paper-scissors: moves, rounds and the score table\<close>

text \<open>
  The program is \<^verbatim>\<open>answers/rps/rps.16.cpp\<close>. Its enum \<^verbatim>\<open>Move\<close> is a datatype, its struct
  \<^verbatim>\<open>Round\<close> a record with the fields \<^verbatim>\<open>p1\<close> and \<^verbatim>\<open>p2\<close>, and its
  \<^verbatim>\<open>std::map<Move, std::map<Move, int> >\<close> a map of maps. Scores are C++ \<^verbatim>\<open>int\<close>s that
  only ever hold -1, 0 and 1, so they are HOL integers.
\<close>

datatype Move = Rock | Paper | Scissors

type_synonym ScoreMap = "Move \<rightharpoonup> (Move \<rightharpoonup> int)"

record Round =
  p1 :: Move
  p2 :: Move

text \<open>
  What can go wrong in the source, as values: \<^verbatim>\<open>score\<close> dereferences the iterator that
  \<^verbatim>\<open>find\<close> returns without comparing it with \<^verbatim>\<open>end()\<close>; \<^verbatim>\<open>TitForTat::nextMove\<close> asserts
  that its position is 0 or 1 (the assertion is modelled as compiled in); the
  \<^verbatim>\<open>next_move\<close> override that \<^verbatim>\<open>PlayerWrap\<close> calls in the host interpreter can raise; and
  \<^verbatim>\<open>history.reserve(num_rounds)\<close> in \<^verbatim>\<open>play\<close> throws \<^verbatim>\<open>std::length_error\<close> when asked for
  more than the vector's \<^verbatim>\<open>max_size()\<close>.
\<close>

datatype error =
    EndIteratorDereferenced
  | AssertionFailed
  | OverrideRaised string
  | LengthError

definition scoreMap :: ScoreMap where
  "scoreMap =
     (let smap = Map.empty;
          rock = Map.empty;
          rock = rock(Rock \<mapsto> 0);
          rock = rock(Paper \<mapsto> 1);
          rock = rock(Scissors \<mapsto> - 1);
          smap = smap(Rock \<mapsto> rock);
          paper = Map.empty;
          paper = paper(Rock \<mapsto> - 1);
          paper = paper(Paper \<mapsto> 0);
          paper = paper(Scissors \<mapsto> 1);
          smap = smap(Paper \<mapsto> paper);
          scissors = Map.empty;
          scissors = scissors(Rock \<mapsto> 1);
          scissors = scissors(Paper \<mapsto> - 1);
          scissors = scissors(Scissors \<mapsto> 0);
          smap = smap(Scissors \<mapsto> scissors)
      in smap)"

definition score :: "Move \<Rightarrow> Move \<Rightarrow> error + int" where
  "score m1 m2 =
     (case scoreMap m1 of
        None \<Rightarrow> Inl EndIteratorDereferenced
      | Some row \<Rightarrow>
          (case row m2 of
             None \<Rightarrow> Inl EndIteratorDereferenced
           | Some s \<Rightarrow> Inr s))"

text \<open>
  The overload of \<^verbatim>\<open>score\<close> on a vector of rounds: the loop pushes one score per round
  onto \<^verbatim>\<open>rslt\<close>, which starts empty.
\<close>

fun score_foreach :: "Round list \<Rightarrow> int list \<Rightarrow> error + int list" where
  "score_foreach [] rslt = Inr rslt"
| "score_foreach (r # rounds) rslt =
     (case score (p1 r) (p2 r) of
        Inl e \<Rightarrow> Inl e
      | Inr s \<Rightarrow> score_foreach rounds (rslt @ [s]))"

definition score_rounds :: "Round list \<Rightarrow> error + int list" where
  "score_rounds rounds = score_foreach rounds []"

text \<open>
  The rule of the specification, in its own words: Rock beats Scissors, Scissors beats
  Paper, Paper beats Rock; a round scores -1 when the first move beats the second, 1 when
  the second beats the first, and 0 otherwise. It is what the table is compared with.
\<close>

fun beats :: "Move \<Rightarrow> Move \<Rightarrow> bool" where
  "beats Rock Scissors = True"
| "beats Scissors Paper = True"
| "beats Paper Rock = True"
| "beats _ _ = False"

definition spec_score :: "Move \<Rightarrow> Move \<Rightarrow> int" where
  "spec_score m1 m2 = (if beats m1 m2 then - 1 else if beats m2 m1 then 1 else 0)"

section \<open>The random source\<close>

text \<open>
  \<^verbatim>\<open>boost::random::mt19937\<close> and \<^verbatim>\<open>boost::random::uniform_int_distribution<>\<close> come from
  a library that is not part of the program, so they are parameters of the model: how an
  engine of type \<open>'g\<close> is made from a seed, and how a distribution over \<open>a..b\<close> draws
  an \<^verbatim>\<open>int\<close> from an engine and advances it.
\<close>

record 'g boost_random =
  mt19937 :: "int \<Rightarrow> 'g"
  uniform_int_distribution :: "int \<Rightarrow> int \<Rightarrow> 'g \<Rightarrow> int \<times> 'g"

text \<open>
  The members \<^verbatim>\<open>rng_\<close> and \<^verbatim>\<open>dist_\<close> (and \<^verbatim>\<open>name_\<close> of \<^verbatim>\<open>Player\<close> below) lose
  their trailing underscore, which a constant's name cannot end with.
\<close>

record 'g RandomMoveGenerator =
  rng :: 'g
  dist :: "int \<times> int"

definition RandomMoveGenerator_init :: "'g boost_random \<Rightarrow> int \<Rightarrow> 'g RandomMoveGenerator" where
  "RandomMoveGenerator_init B seed = \<lparr>rng = mt19937 B seed, dist = (1, 3)\<rparr>"

text \<open>The \<^verbatim>\<open>switch\<close> of \<^verbatim>\<open>operator()\<close>: case 3 shares the \<^verbatim>\<open>default\<close> branch.\<close>

definition move_of_draw :: "int \<Rightarrow> Move" where
  "move_of_draw d = (if d = 1 then Rock else if d = 2 then Paper else Scissors)"

definition RandomMoveGenerator_call ::
    "'g boost_random \<Rightarrow> 'g RandomMoveGenerator \<Rightarrow> Move \<times> 'g RandomMoveGenerator" where
  "RandomMoveGenerator_call B rmg0 =
     (case uniform_int_distribution B (fst (dist rmg0)) (snd (dist rmg0)) (rng rmg0) of
        (d, g) \<Rightarrow> (move_of_draw d, rmg0\<lparr>rng := g\<rparr>))"

text \<open>
  The state outside a match: the function-local static \<^verbatim>\<open>rmg\<close> of \<^verbatim>\<open>randomMove\<close>
  (\<open>None\<close> until the first call constructs it from \<^verbatim>\<open>std::time(0)\<close>), the value the clock
  gives to that one read, and the state \<open>'u\<close> of the host interpreter, which only
  \<^verbatim>\<open>next_move\<close> overrides touch.
\<close>

record ('g, 'u) world =
  rmg :: "'g RandomMoveGenerator option"
  time0 :: int
  host :: 'u

definition randomMove :: "'g boost_random \<Rightarrow> ('g, 'u) world \<Rightarrow> Move \<times> ('g, 'u) world" where
  "randomMove B w =
     (let rmg0 = (case rmg w of None \<Rightarrow> RandomMoveGenerator_init B (time0 w) | Some r \<Rightarrow> r)
      in case RandomMoveGenerator_call B rmg0 of
           (m, rmg1) \<Rightarrow> (m, w\<lparr>rmg := Some rmg1\<rparr>))"

section \<open>Players\<close>

text \<open>
  A \<^verbatim>\<open>Player\<close> has a name and a dynamic type that fixes \<^verbatim>\<open>nextMove\<close>: \<^verbatim>\<open>Random\<close>,
  \<^verbatim>\<open>TitForTat\<close>, or \<^verbatim>\<open>PlayerWrap\<close>, whose \<^verbatim>\<open>nextMove\<close> calls the \<^verbatim>\<open>next_move\<close> method that
  a class of the host language defines. That method receives the object (so it can read
  the name), the history and the position, runs in the world, and may raise. The
  position is an \<^verbatim>\<open>unsigned char\<close>.
\<close>

type_synonym ('g, 'u) override =
  "string \<Rightarrow> Round list \<Rightarrow> 8 word \<Rightarrow> ('g, 'u) world \<Rightarrow> error + Move \<times> ('g, 'u) world"

datatype ('g, 'u) strategy =
    Random
  | TitForTat
  | PlayerWrap "('g, 'u) override"

record ('g, 'u) Player =
  name_attr :: string
  strategy :: "('g, 'u) strategy"

definition name :: "('g, 'u) Player \<Rightarrow> string" where
  "name p = name_attr p"

definition setName :: "('g, 'u) Player \<Rightarrow> string \<Rightarrow> ('g, 'u) Player" where
  "setName p n = p\<lparr>name_attr := n\<rparr>"

definition Random_nextMove ::
    "'g boost_random \<Rightarrow> Round list \<Rightarrow> 8 word \<Rightarrow> ('g, 'u) world \<Rightarrow> error + Move \<times> ('g, 'u) world" where
  "Random_nextMove B history my_pos w = Inr (randomMove B w)"

definition TitForTat_nextMove ::
    "'g boost_random \<Rightarrow> Round list \<Rightarrow> 8 word \<Rightarrow> ('g, 'u) world \<Rightarrow> error + Move \<times> ('g, 'u) world" where
  "TitForTat_nextMove B history my_pos w =
     (if \<not> (my_pos = 0 \<or> my_pos = 1) then Inl AssertionFailed
      else if history = [] then Inr (randomMove B w)
      else let r = last history in Inr (if my_pos = 0 then p2 r else p1 r, w))"

definition PlayerWrap_nextMove ::
    "('g, 'u) override \<Rightarrow> string \<Rightarrow> Round list \<Rightarrow> 8 word \<Rightarrow> ('g, 'u) world
      \<Rightarrow> error + Move \<times> ('g, 'u) world" where
  "PlayerWrap_nextMove next_move self history my_pos w = next_move self history my_pos w"

text \<open>The virtual call \<^verbatim>\<open>p.nextMove(history, my_pos)\<close>.\<close>

definition nextMove ::
    "'g boost_random \<Rightarrow> ('g, 'u) Player \<Rightarrow> Round list \<Rightarrow> 8 word \<Rightarrow> ('g, 'u) world
      \<Rightarrow> error + Move \<times> ('g, 'u) world" where
  "nextMove B p history my_pos w =
     (case strategy p of
        Random \<Rightarrow> Random_nextMove B history my_pos w
      | TitForTat \<Rightarrow> TitForTat_nextMove B history my_pos w
      | PlayerWrap next_move \<Rightarrow> PlayerWrap_nextMove next_move (name_attr p) history my_pos w)"

section \<open>A match\<close>

text \<open>
  \<^verbatim>\<open>play\<close> reserves room for \<^verbatim>\<open>num_rounds\<close> rounds, runs its loop for
  \<open>i = 0, ..., num_rounds - 1\<close> and then scores the history. The counter and the bound
  have the same unsigned type, so the counter never wraps and both are natural numbers.
  \<^verbatim>\<open>reserve\<close> throws \<^verbatim>\<open>std::length_error\<close> when \<^verbatim>\<open>num_rounds\<close> exceeds
  \<^verbatim>\<open>std::vector<Round>::max_size()\<close>, a constant of the standard library that is a
  parameter of the model; after it, no \<^verbatim>\<open>push_back\<close> of the loop goes beyond the reserved
  capacity. Running out of memory (\<^verbatim>\<open>std::bad_alloc\<close>) is outside the model. An exception
  of a \<^verbatim>\<open>nextMove\<close> call leaves \<^verbatim>\<open>play\<close> at once.

  To speak about which calls a match makes, the loop keeps a log beside the world: one
  entry per \<^verbatim>\<open>nextMove\<close> call that returned, with the parameter of \<^verbatim>\<open>play\<close> it was made
  on, the history and position passed, and the move returned.
\<close>

datatype callee = First | Second

datatype call = Call callee "Round list" "8 word" Move

function play_loop ::
    "'g boost_random \<Rightarrow> ('g, 'u) Player \<Rightarrow> ('g, 'u) Player \<Rightarrow> nat \<Rightarrow> nat \<Rightarrow> Round list
      \<Rightarrow> ('g, 'u) world \<Rightarrow> call list \<Rightarrow> error + Round list \<times> ('g, 'u) world \<times> call list" where
  "play_loop B pl1 pl2 num_rounds i history w calls =
     (if i < num_rounds then
        (case nextMove B pl1 history 0 w of
           Inl e \<Rightarrow> Inl e
         | Inr (m1, w1) \<Rightarrow>
             (case nextMove B pl2 history 1 w1 of
                Inl e \<Rightarrow> Inl e
              | Inr (m2, w2) \<Rightarrow>
                  play_loop B pl1 pl2 num_rounds (Suc i) (history @ [\<lparr>p1 = m1, p2 = m2\<rparr>]) w2
                    (calls @ [Call First history 0 m1, Call Second history 1 m2])))
      else Inr (history, w, calls))"
  by pat_completeness auto
termination
  by (relation "measure (\<lambda>(B, pl1, pl2, num_rounds, i, history, w, calls). num_rounds - i)") auto

declare play_loop.simps [simp del]

text \<open>
  The body of \<^verbatim>\<open>play\<close> up to the end of its loop: the empty history, the
  \<^verbatim>\<open>reserve\<close>, the rounds.
\<close>

definition play_rounds ::
    "'g boost_random \<Rightarrow> nat \<Rightarrow> ('g, 'u) Player \<Rightarrow> ('g, 'u) Player \<Rightarrow> nat \<Rightarrow> ('g, 'u) world
      \<Rightarrow> error + Round list \<times> ('g, 'u) world \<times> call list" where
  "play_rounds B max_size pl1 pl2 num_rounds w =
     (let history = [] in
      if max_size < num_rounds then Inl LengthError
      else play_loop B pl1 pl2 num_rounds 0 history w [])"

definition play ::
    "'g boost_random \<Rightarrow> nat \<Rightarrow> ('g, 'u) Player \<Rightarrow> ('g, 'u) Player \<Rightarrow> nat \<Rightarrow> ('g, 'u) world
      \<Rightarrow> error + int list \<times> ('g, 'u) world \<times> call list" where
  "play B max_size pl1 pl2 num_rounds w =
     (case play_rounds B max_size pl1 pl2 num_rounds w of
        Inl e \<Rightarrow> Inl e
      | Inr (history, w', calls) \<Rightarrow>
          (case score_rounds history of
             Inl e \<Rightarrow> Inl e
           | Inr scores \<Rightarrow> Inr (scores, w', calls)))"

text \<open>
  A stand-in for the library, to run the model on concrete inputs: the engine is the
  list of the draws still to come, whatever the seed, and a distribution over \<open>a..b\<close>
  hands out the next one (\<open>a\<close> once the list is used up).
\<close>

definition scripted :: "int list \<Rightarrow> (int list) boost_random" where
  "scripted ds =
     \<lparr>mt19937 = (\<lambda>seed. ds),
      uniform_int_distribution = (\<lambda>a b g. case g of [] \<Rightarrow> (a, []) | d # g' \<Rightarrow> (d, g'))\<rparr>"

definition fresh_world :: "(int list, unit) world" where
  "fresh_world = \<lparr>rmg = None, time0 = 0, host = ()\<rparr>"

definition random_player :: "(int list, unit) Player" where
  "random_player = \<lparr>name_attr = ''random'', strategy = Random\<rparr>"

definition t4t_player :: "(int list, unit) Player" where
  "t4t_player = \<lparr>name_attr = ''t4t'', strategy = TitForTat\<rparr>"

definition raising_player :: "(int list, unit) Player" where
  "raising_player =
     \<lparr>name_attr = ''broken'',
      strategy = PlayerWrap (\<lambda>self history my_pos w. Inl (OverrideRaised ''next_move''))\<rparr>"

text \<open>A player of the host language that plays Rock in two rounds and raises in the third.\<close>

definition tiring_player :: "(int list, unit) Player" where
  "tiring_player =
     \<lparr>name_attr = ''tiring'',
      strategy = PlayerWrap (\<lambda>self history my_pos w.
        if length history < 2 then Inr (Rock, w) else Inl (OverrideRaised ''tired''))\<rparr>"

text \<open>
  A value of \<^verbatim>\<open>max_size()\<close> for the concrete runs: \<open>2^60 - 1\<close>, the largest number of
  8-byte rounds that \<open>2^63 - 1\<close> bytes hold.
\<close>

definition sample_max_size :: nat where
  "sample_max_size = 1152921504606846975"

section \<open>Notions the properties are stated with\<close>

text \<open>What the caller of a function of the model receives: the error, or the value without the state.\<close>

definition returned :: "error + 'a \<times> 'b \<Rightarrow> error + 'a" where
  "returned r = (case r of Inl e \<Rightarrow> Inl e | Inr (x, s) \<Rightarrow> Inr x)"

text \<open>
  A player whose \<^verbatim>\<open>nextMove\<close> at a given position returns a move from every history, in
  every world.
\<close>

definition reliable :: "'g boost_random \<Rightarrow> ('g, 'u) Player \<Rightarrow> 8 word \<Rightarrow> bool" where
  "reliable B p my_pos = (\<forall>history w. \<exists>m w'. nextMove B p history my_pos w = Inr (m, w'))"

text \<open>
  The match as the specification describes it (section 4.3). One round, given the log of
  the rounds before it: ask the first strategy for its move, passing the log and position
  0; ask the second, passing the same log and position 1; the round is the pair of the two
  moves. A call that fails ends the round with its failure, and the second strategy is
  asked only if the first returned. The log after \<open>i\<close> rounds starts empty and is extended
  by one round at a time; a failure of a round is the failure of every longer match.
\<close>

definition spec_round ::
    "'g boost_random \<Rightarrow> ('g, 'u) Player \<Rightarrow> ('g, 'u) Player \<Rightarrow> Round list \<Rightarrow> ('g, 'u) world
      \<Rightarrow> error + Round \<times> ('g, 'u) world" where
  "spec_round B strategyA strategyB log w =
     (case nextMove B strategyA log 0 w of
        Inl e \<Rightarrow> Inl e
      | Inr (moveA, w1) \<Rightarrow>
          (case nextMove B strategyB log 1 w1 of
             Inl e \<Rightarrow> Inl e
           | Inr (moveB, w2) \<Rightarrow> Inr (\<lparr>p1 = moveA, p2 = moveB\<rparr>, w2)))"

fun spec_log ::
    "'g boost_random \<Rightarrow> ('g, 'u) Player \<Rightarrow> ('g, 'u) Player \<Rightarrow> nat \<Rightarrow> ('g, 'u) world
      \<Rightarrow> error + Round list \<times> ('g, 'u) world" where
  "spec_log B strategyA strategyB 0 w = Inr ([], w)"
| "spec_log B strategyA strategyB (Suc i) w =
     (case spec_log B strategyA strategyB i w of
        Inl e \<Rightarrow> Inl e
      | Inr (log, w') \<Rightarrow>
          (case spec_round B strategyA strategyB log w' of
             Inl e \<Rightarrow> Inl e
           | Inr (r, w'') \<Rightarrow> Inr (log @ [r], w'')))"

text \<open>
  Every \<^verbatim>\<open>nextMove\<close> call of a match of \<open>n\<close> rounds returns a move: in each round
  \<open>i < n\<close> the earlier rounds gave a log, the first strategy returns on it, and then the
  second does.
\<close>

definition calls_return ::
    "'g boost_random \<Rightarrow> ('g, 'u) Player \<Rightarrow> ('g, 'u) Player \<Rightarrow> nat \<Rightarrow> ('g, 'u) world \<Rightarrow> bool" where
  "calls_return B strategyA strategyB n w =
     (\<forall>i < n.
        case spec_log B strategyA strategyB i w of
          Inl e \<Rightarrow> False
        | Inr (log, wi) \<Rightarrow>
            (case nextMove B strategyA log 0 wi of
               Inl e \<Rightarrow> False
             | Inr (moveA, w1) \<Rightarrow>
                 (case nextMove B strategyB log 1 w1 of
                    Inl e \<Rightarrow> False
                  | Inr (moveB, w2) \<Rightarrow> True)))"

text \<open>
  The calls of a match that went through the rounds of \<open>history\<close>, if in round \<open>i\<close> each
  player is given the rounds before \<open>i\<close> and nothing else: the first player at position
  0, then the second at position 1, each returning its move of round \<open>i\<close>.
\<close>

definition round_calls :: "Round list \<Rightarrow> nat \<Rightarrow> call list" where
  "round_calls history i =
     [Call First (take i history) 0 (p1 (history ! i)),
      Call Second (take i history) 1 (p2 (history ! i))]"

definition match_calls :: "Round list \<Rightarrow> call list" where
  "match_calls history = concat (map (round_calls history) [0..<length history])"

section \<open>The score table\<close>

lemma score_table:
  "score Rock Rock = Inr 0" "score Rock Paper = Inr 1" "score Rock Scissors = Inr (- 1)"
  "score Paper Rock = Inr (- 1)" "score Paper Paper = Inr 0" "score Paper Scissors = Inr 1"
  "score Scissors Rock = Inr 1" "score Scissors Paper = Inr (- 1)"
  "score Scissors Scissors = Inr 0"
  by (simp_all add: score_def scoreMap_def)

lemma score_spec_score: "score m1 m2 = Inr (spec_score m1 m2)"
  by (cases m1; cases m2) (simp_all add: score_table spec_score_def)

lemma spec_score_swap: "spec_score m2 m1 = - spec_score m1 m2"
  by (cases m1; cases m2) (simp_all add: spec_score_def)

lemma spec_score_same: "spec_score m m = 0"
  by (cases m) (simp_all add: spec_score_def)

text \<open>
  C1. For every pair of moves the pairwise score is -1 when the first move beats the
  second, 1 when the second beats the first and 0 when the moves are equal, under
  Rock beats Scissors, Scissors beats Paper, Paper beats Rock; a tie is exactly a pair of
  equal moves, the three dominance pairs score -1 and every move ties with itself.
\<close>

theorem score_follows_beats:
  "score m1 m2 = Inr (if beats m1 m2 then - 1 else if beats m2 m1 then 1 else 0)
   \<and> (\<not> beats m1 m2 \<and> \<not> beats m2 m1) = (m1 = m2)
   \<and> score Rock Scissors = Inr (- 1)
   \<and> score Scissors Paper = Inr (- 1)
   \<and> score Paper Rock = Inr (- 1)
   \<and> score m m = Inr 0"
proof -
  have "score m1 m2 = Inr (if beats m1 m2 then - 1 else if beats m2 m1 then 1 else 0)"
    by (simp add: score_spec_score spec_score_def)
  moreover have "(\<not> beats m1 m2 \<and> \<not> beats m2 m1) = (m1 = m2)"
    by (cases m1; cases m2) simp_all
  moreover have "score m m = Inr 0"
    by (simp add: score_spec_score spec_score_same)
  ultimately show ?thesis
    by (simp add: score_table)
qed

theorem score_follows_beats_witness:
  "score Paper Scissors = Inr 1 \<and> score Scissors Scissors = Inr 0"
  using score_follows_beats [of Paper Scissors Scissors] by simp

text \<open>
  C6. For distinct moves the score changes sign when the moves are swapped, and one of
  the two scores is -1 and the other 1: distinct moves never tie.
\<close>

theorem score_antisymmetric:
  "m1 \<noteq> m2 \<Longrightarrow>
   \<exists>a b. score m1 m2 = Inr a \<and> score m2 m1 = Inr b \<and> a = - b
     \<and> ((a = - 1 \<and> b = 1) \<or> (a = 1 \<and> b = - 1))"
  by (cases m1; cases m2) (simp_all add: score_table)

theorem score_antisymmetric_witness:
  "Paper \<noteq> Scissors \<and> score Paper Scissors = Inr 1 \<and> score Scissors Paper = Inr (- 1)"
  using score_antisymmetric [of Paper Scissors] by (simp add: score_table)

section \<open>Scoring a sequence of rounds\<close>

lemma score_foreach_map:
  "score_foreach rounds rslt = Inr (rslt @ map (\<lambda>r. spec_score (p1 r) (p2 r)) rounds)"
  by (induction rounds arbitrary: rslt) (simp_all add: score_spec_score)

lemma score_rounds_map:
  "score_rounds rounds = Inr (map (\<lambda>r. spec_score (p1 r) (p2 r)) rounds)"
  by (simp add: score_rounds_def score_foreach_map)

text \<open>
  C4. Scoring a sequence of rounds returns a sequence of the same length whose i-th
  element is the pairwise score of the two moves of the i-th round.
\<close>

theorem score_rounds_pointwise:
  "\<exists>scores. score_rounds rounds = Inr scores
     \<and> length scores = length rounds
     \<and> (\<forall>i < length rounds. score (p1 (rounds ! i)) (p2 (rounds ! i)) = Inr (scores ! i))"
  by (simp add: score_rounds_map score_spec_score)

theorem score_rounds_pointwise_witness:
  "score_rounds [\<lparr>p1 = Rock, p2 = Paper\<rparr>, \<lparr>p1 = Rock, p2 = Scissors\<rparr>, \<lparr>p1 = Paper, p2 = Paper\<rparr>]
     = Inr [1, - 1, 0]"
proof -
  let ?rounds = "[\<lparr>p1 = Rock, p2 = Paper\<rparr>, \<lparr>p1 = Rock, p2 = Scissors\<rparr>, \<lparr>p1 = Paper, p2 = Paper\<rparr>]"
  from score_rounds_pointwise [of ?rounds]
  obtain scores where run: "score_rounds ?rounds = Inr scores"
    and len: "length scores = 3"
    and at: "\<forall>i < 3. score (p1 (?rounds ! i)) (p2 (?rounds ! i)) = Inr (scores ! i)"
    by auto
  from at [rule_format, of 0] at [rule_format, of 1] at [rule_format, of 2]
  have "score Rock Paper = Inr (scores ! 0)" "score Rock Scissors = Inr (scores ! 1)"
    "score Paper Paper = Inr (scores ! 2)"
    by simp_all
  then have "scores ! 0 = 1" "scores ! 1 = - 1" "scores ! 2 = 0"
    by (simp_all add: score_table)
  with len have "scores = [1, - 1, 0]"
    by (cases scores; simp add: numeral_3_eq_3 length_Suc_conv; auto)
  with run show ?thesis by simp
qed

section \<open>The built-in strategies\<close>

lemma nextMove_Random:
  "strategy p = Random \<Longrightarrow> nextMove B p history my_pos w = Inr (randomMove B w)"
  by (simp add: nextMove_def Random_nextMove_def)

lemma nextMove_TitForTat:
  "strategy p = TitForTat \<Longrightarrow> nextMove B p history my_pos w = TitForTat_nextMove B history my_pos w"
  by (simp add: nextMove_def)

lemma randomMove_scripted:
  "randomMove (scripted (d # ds)) fresh_world
     = (move_of_draw d, fresh_world\<lparr>rmg := Some \<lparr>rng = ds, dist = (1, 3)\<rparr>\<rparr>)"
  by (simp add: randomMove_def fresh_world_def scripted_def RandomMoveGenerator_init_def
      RandomMoveGenerator_call_def)

text \<open>
  C10. The random move generator is total over its random source: a draw of 1 gives
  Rock, a draw of 2 gives Paper and every other draw, in or out of the range of the
  distribution, gives Scissors; the move of a call is the move of the value drawn from
  the generator's distribution and engine; \<^verbatim>\<open>Random::nextMove\<close> returns such a move for
  every history and position, and so does \<^verbatim>\<open>TitForTat::nextMove\<close> on the empty history at
  a valid position.
\<close>

theorem random_move_total:
  "move_of_draw 1 = Rock \<and> move_of_draw 2 = Paper
   \<and> (d \<noteq> 1 \<and> d \<noteq> 2 \<longrightarrow> move_of_draw d = Scissors)
   \<and> fst (RandomMoveGenerator_call B g)
       = move_of_draw (fst (uniform_int_distribution B (fst (dist g)) (snd (dist g)) (rng g)))
   \<and> fst (RandomMoveGenerator_call B g) \<in> {Rock, Paper, Scissors}
   \<and> fst (randomMove B w)
       = fst (RandomMoveGenerator_call B
               (case rmg w of None \<Rightarrow> RandomMoveGenerator_init B (time0 w) | Some r \<Rightarrow> r))
   \<and> nextMove B \<lparr>name_attr = n, strategy = Random\<rparr> history my_pos w = Inr (randomMove B w)
   \<and> (my_pos = 0 \<or> my_pos = 1 \<longrightarrow>
        nextMove B \<lparr>name_attr = n, strategy = TitForTat\<rparr> [] my_pos w = Inr (randomMove B w))"
proof -
  have "fst (RandomMoveGenerator_call B g) \<in> {Rock, Paper, Scissors}"
    by (cases "fst (RandomMoveGenerator_call B g)") simp_all
  moreover have "fst (randomMove B w)
       = fst (RandomMoveGenerator_call B
               (case rmg w of None \<Rightarrow> RandomMoveGenerator_init B (time0 w) | Some r \<Rightarrow> r))"
    by (simp add: randomMove_def Let_def split: prod.splits)
  moreover have "fst (RandomMoveGenerator_call B g)
       = move_of_draw (fst (uniform_int_distribution B (fst (dist g)) (snd (dist g)) (rng g)))"
    by (simp add: RandomMoveGenerator_call_def split: prod.splits)
  ultimately show ?thesis
    by (simp add: move_of_draw_def nextMove_Random nextMove_TitForTat TitForTat_nextMove_def)
qed

theorem random_move_total_witness:
  "move_of_draw 7 = Scissors \<and> move_of_draw (- 4) = Scissors
   \<and> nextMove (scripted [7]) random_player [] 0 fresh_world
       = Inr (Scissors, fresh_world\<lparr>rmg := Some \<lparr>rng = [], dist = (1, 3)\<rparr>\<rparr>)
   \<and> nextMove (scripted [0]) t4t_player [] 1 fresh_world
       = Inr (Scissors, fresh_world\<lparr>rmg := Some \<lparr>rng = [], dist = (1, 3)\<rparr>\<rparr>)"
proof -
  note random_move_total [where d = 7 and B = "scripted [7]" and w = fresh_world
      and n = "''random''" and history = "[]" and my_pos = 0]
  then have "move_of_draw 7 = Scissors"
    and "nextMove (scripted [7]) random_player [] 0 fresh_world
          = Inr (randomMove (scripted [7]) fresh_world)"
    by (simp_all add: random_player_def)
  moreover
  note random_move_total [where d = "- 4" and B = "scripted [0]" and w = fresh_world
      and n = "''t4t''" and my_pos = 1]
  then have "move_of_draw (- 4) = Scissors"
    and "nextMove (scripted [0]) t4t_player [] 1 fresh_world
          = Inr (randomMove (scripted [0]) fresh_world)"
    by (simp_all add: t4t_player_def)
  ultimately show ?thesis
    by (simp add: randomMove_scripted move_of_draw_def)
qed

text \<open>
  C9. The name does not enter the decision of a built-in strategy: two Random players,
  or two TitForTat players, that differ in their names return the same result of
  \<^verbatim>\<open>nextMove\<close> for every history, position and world (whose generator is the random
  source); and \<^verbatim>\<open>setName\<close> replaces the name and leaves everything else as it was.
\<close>

theorem name_is_cosmetic:
  "nextMove B \<lparr>name_attr = n1, strategy = Random\<rparr> history my_pos w
     = nextMove B \<lparr>name_attr = n2, strategy = Random\<rparr> history my_pos w
   \<and> nextMove B \<lparr>name_attr = n1, strategy = TitForTat\<rparr> history my_pos w
     = nextMove B \<lparr>name_attr = n2, strategy = TitForTat\<rparr> history my_pos w
   \<and> nextMove B (setName \<lparr>name_attr = n1, strategy = Random\<rparr> n) history my_pos w
     = nextMove B \<lparr>name_attr = n1, strategy = Random\<rparr> history my_pos w
   \<and> nextMove B (setName \<lparr>name_attr = n1, strategy = TitForTat\<rparr> n) history my_pos w
     = nextMove B \<lparr>name_attr = n1, strategy = TitForTat\<rparr> history my_pos w
   \<and> name (setName p n) = n
   \<and> strategy (setName p n) = strategy p
   \<and> setName p n = p\<lparr>name_attr := n\<rparr>"
  by (simp add: nextMove_def setName_def name_def)

theorem name_is_cosmetic_witness:
  "nextMove (scripted [2]) (setName random_player ''other'') [] 0 fresh_world
     = nextMove (scripted [2]) random_player [] 0 fresh_world
   \<and> name (setName t4t_player ''other'') = ''other''
   \<and> strategy (setName t4t_player ''other'') = TitForTat"
  using name_is_cosmetic [where B = "scripted [2]" and ?n1.0 = "''random''" and history = "[]"
      and my_pos = 0 and w = fresh_world and n = "''other''" and p = t4t_player]
  by (simp add: random_player_def t4t_player_def name_def)

text \<open>
  A \<^verbatim>\<open>next_move\<close> override is another matter: it is given the object and may decide by
  its name.
\<close>

lemma override_reads_name:
  "nextMove B \<lparr>name_attr = ''r'', strategy = PlayerWrap (\<lambda>self history my_pos w.
       Inr (if self = ''r'' then Rock else Paper, w))\<rparr> [] 0 w
   \<noteq> nextMove B \<lparr>name_attr = ''p'', strategy = PlayerWrap (\<lambda>self history my_pos w.
       Inr (if self = ''r'' then Rock else Paper, w))\<rparr> [] 0 w"
  by (simp add: nextMove_def PlayerWrap_nextMove_def)

text \<open>
  C7, as the claim states it, fails for \<^verbatim>\<open>Random\<close>: its \<^verbatim>\<open>nextMove\<close> does not look at the
  position, and returns a move at position 2.
\<close>

theorem random_accepts_any_position:
  "nextMove (scripted [1]) random_player [] 2 fresh_world
     = Inr (Rock, fresh_world\<lparr>rmg := Some \<lparr>rng = [], dist = (1, 3)\<rparr>\<rparr>)"
  by (simp add: random_player_def nextMove_Random randomMove_scripted move_of_draw_def)

text \<open>
  C7 (amended). At a position other than 0 and 1, \<^verbatim>\<open>TitForTat::nextMove\<close> fails its
  assertion, on every history (the empty one too) and before any random draw, and returns
  no move; \<^verbatim>\<open>Random::nextMove\<close> ignores the position and returns the move of
  \<^verbatim>\<open>randomMove\<close>.
\<close>

theorem invalid_position:
  "\<not> (my_pos = 0 \<or> my_pos = 1) \<Longrightarrow>
   nextMove B \<lparr>name_attr = n, strategy = TitForTat\<rparr> history my_pos w = Inl AssertionFailed
   \<and> nextMove B \<lparr>name_attr = n', strategy = Random\<rparr> history my_pos w = Inr (randomMove B w)"
  by (simp add: nextMove_Random nextMove_TitForTat TitForTat_nextMove_def)

theorem invalid_position_witness:
  "\<not> ((2 :: 8 word) = 0 \<or> (2 :: 8 word) = 1)
   \<and> nextMove (scripted [1]) t4t_player [\<lparr>p1 = Rock, p2 = Paper\<rparr>] 2 fresh_world = Inl AssertionFailed
   \<and> nextMove (scripted [1]) t4t_player [] 2 fresh_world = Inl AssertionFailed
   \<and> nextMove (scripted [1]) random_player [\<lparr>p1 = Rock, p2 = Paper\<rparr>] 2 fresh_world
       = Inr (Rock, fresh_world\<lparr>rmg := Some \<lparr>rng = [], dist = (1, 3)\<rparr>\<rparr>)"
  using invalid_position [of 2 "scripted [1]" "''t4t''" "[\<lparr>p1 = Rock, p2 = Paper\<rparr>]" fresh_world "''random''"]
    invalid_position [of 2 "scripted [1]" "''t4t''" "[]" fresh_world "''random''"]
  by (simp add: random_player_def t4t_player_def randomMove_scripted move_of_draw_def)

text \<open>
  C5. On a non-empty history and at a valid position, \<^verbatim>\<open>TitForTat::nextMove\<close> returns
  the move of the other side in the last round, and leaves the world as it is; after a
  last round (Rock, Paper) that is Paper at position 0 and Rock at position 1. On the
  empty history it returns the move of \<^verbatim>\<open>randomMove\<close>, one of the three moves.
\<close>

theorem mirror_returns_opponents_last_move:
  "history \<noteq> [] \<Longrightarrow> my_pos = 0 \<or> my_pos = 1 \<Longrightarrow>
   nextMove B \<lparr>name_attr = n, strategy = TitForTat\<rparr> history my_pos w
     = Inr (if my_pos = 0 then p2 (last history) else p1 (last history), w)
   \<and> nextMove B \<lparr>name_attr = n, strategy = TitForTat\<rparr> (earlier @ [\<lparr>p1 = Rock, p2 = Paper\<rparr>]) 0 w
     = Inr (Paper, w)
   \<and> nextMove B \<lparr>name_attr = n, strategy = TitForTat\<rparr> (earlier @ [\<lparr>p1 = Rock, p2 = Paper\<rparr>]) 1 w
     = Inr (Rock, w)
   \<and> nextMove B \<lparr>name_attr = n, strategy = TitForTat\<rparr> [] my_pos w = Inr (randomMove B w)
   \<and> fst (randomMove B w) \<in> {Rock, Paper, Scissors}"
proof -
  assume "history \<noteq> []" "my_pos = 0 \<or> my_pos = 1"
  moreover have "fst (randomMove B w) \<in> {Rock, Paper, Scissors}"
    by (cases "fst (randomMove B w)") simp_all
  ultimately show ?thesis
    by (auto simp: nextMove_TitForTat TitForTat_nextMove_def)
qed

theorem mirror_returns_opponents_last_move_witness:
  "nextMove (scripted [3]) t4t_player [\<lparr>p1 = Scissors, p2 = Scissors\<rparr>, \<lparr>p1 = Rock, p2 = Paper\<rparr>] 0 fresh_world
     = Inr (Paper, fresh_world)
   \<and> nextMove (scripted [3]) t4t_player [\<lparr>p1 = Scissors, p2 = Scissors\<rparr>, \<lparr>p1 = Rock, p2 = Paper\<rparr>] 1 fresh_world
     = Inr (Rock, fresh_world)
   \<and> nextMove (scripted [3]) t4t_player [] 1 fresh_world
     = Inr (Scissors, fresh_world\<lparr>rmg := Some \<lparr>rng = [], dist = (1, 3)\<rparr>\<rparr>)"
  using mirror_returns_opponents_last_move
      [of "[\<lparr>p1 = Scissors, p2 = Scissors\<rparr>, \<lparr>p1 = Rock, p2 = Paper\<rparr>]" 0 "scripted [3]" "''t4t''" fresh_world "[\<lparr>p1 = Scissors, p2 = Scissors\<rparr>]"]
    mirror_returns_opponents_last_move
      [of "[\<lparr>p1 = Scissors, p2 = Scissors\<rparr>, \<lparr>p1 = Rock, p2 = Paper\<rparr>]" 1 "scripted [3]" "''t4t''" fresh_world "[\<lparr>p1 = Scissors, p2 = Scissors\<rparr>]"]
  by (simp add: t4t_player_def randomMove_scripted move_of_draw_def)

section \<open>Matches\<close>

lemma play_loop_exit:
  "\<not> i < n \<Longrightarrow> play_loop B a b n i hist w calls = Inr (hist, w, calls)"
  by (simp add: play_loop.simps)

lemma play_loop_step:
  "i < n \<Longrightarrow> nextMove B a hist 0 w = Inr (m1, w1) \<Longrightarrow> nextMove B b hist 1 w1 = Inr (m2, w2) \<Longrightarrow>
   play_loop B a b n i hist w calls =
   play_loop B a b n (Suc i) (hist @ [\<lparr>p1 = m1, p2 = m2\<rparr>]) w2
     (calls @ [Call First hist 0 m1, Call Second hist 1 m2])"
  by (subst play_loop.simps) simp

lemma play_loop_fail_first:
  "i < n \<Longrightarrow> nextMove B a hist 0 w = Inl e \<Longrightarrow> play_loop B a b n i hist w calls = Inl e"
  by (subst play_loop.simps) simp

lemma play_loop_fail_second:
  "i < n \<Longrightarrow> nextMove B a hist 0 w = Inr (m1, w1) \<Longrightarrow> nextMove B b hist 1 w1 = Inl e \<Longrightarrow>
   play_loop B a b n i hist w calls = Inl e"
  by (subst play_loop.simps) simp

subsection \<open>The log of the specification\<close>

lemma spec_round_Inr:
  "(spec_round B a b log w = Inr (r, w2)) =
   (\<exists>w1. nextMove B a log 0 w = Inr (p1 r, w1) \<and> nextMove B b log 1 w1 = Inr (p2 r, w2))"
  by (cases r) (auto simp: spec_round_def split: sum.splits)

lemma spec_round_Inl:
  "(spec_round B a b log w = Inl e) =
   (nextMove B a log 0 w = Inl e
    \<or> (\<exists>m1 w1. nextMove B a log 0 w = Inr (m1, w1) \<and> nextMove B b log 1 w1 = Inl e))"
  by (auto simp: spec_round_def split: sum.splits)

lemma spec_log_length:
  "spec_log B a b i w = Inr (h, w') \<Longrightarrow> length h = i"
  by (induction i arbitrary: h w') (auto split: sum.splits)

lemma spec_log_fail:
  "spec_log B a b i w = Inl e \<Longrightarrow> spec_log B a b (i + k) w = Inl e"
  by (induction k) simp_all

lemma spec_log_take:
  "spec_log B a b (i + k) w = Inr (h, w') \<Longrightarrow> \<exists>wi. spec_log B a b i w = Inr (take i h, wi)"
proof (induction k arbitrary: h w')
  case 0
  then show ?case by (auto dest: spec_log_length)
next
  case (Suc k)
  then obtain log w1 r where
    prev: "spec_log B a b (i + k) w = Inr (log, w1)" and h: "h = log @ [r]"
    by (auto split: sum.splits)
  from Suc.IH [OF prev] obtain wi where "spec_log B a b i w = Inr (take i log, wi)"
    by blast
  moreover have "length log = i + k"
    using prev by (rule spec_log_length)
  ultimately show ?case
    using h by auto
qed

lemma spec_log_Suc_Inr:
  assumes "spec_log B a b n w = Inr (h, w')" and "i < n"
  shows "\<exists>wi w1 w2. spec_log B a b i w = Inr (take i h, wi)
           \<and> nextMove B a (take i h) 0 wi = Inr (p1 (h ! i), w1)
           \<and> nextMove B b (take i h) 1 w1 = Inr (p2 (h ! i), w2)"
proof -
  have len: "length h = n"
    using assms(1) by (rule spec_log_length)
  from assms have "spec_log B a b (Suc i + (n - Suc i)) w = Inr (h, w')"
    by simp
  then obtain w2 where nxt: "spec_log B a b (Suc i) w = Inr (take (Suc i) h, w2)"
    by (blast dest: spec_log_take)
  then obtain log wi r where
    prev: "spec_log B a b i w = Inr (log, wi)" and
    rnd: "spec_round B a b log wi = Inr (r, w2)" and
    eq: "take (Suc i) h = log @ [r]"
    by (auto split: sum.splits)
  have "length log = i"
    using prev by (rule spec_log_length)
  with eq have "take i (take (Suc i) h) = log" "take (Suc i) h ! i = r"
    by (simp_all add: nth_append)
  then have "take i h = log" "h ! i = r"
    by (simp_all add: min_def)
  with prev rnd show ?thesis
    by (auto simp: spec_round_Inr)
qed

lemma spec_log_first_failure:
  "spec_log B a b n w = Inl e \<Longrightarrow>
   \<exists>i < n. \<exists>log wi. spec_log B a b i w = Inr (log, wi) \<and> spec_round B a b log wi = Inl e"
proof (induction n)
  case 0
  then show ?case by simp
next
  case (Suc n)
  show ?case
  proof (cases "spec_log B a b n w")
    case (Inl e')
    with Suc.prems have "e' = e" by simp
    with Inl Suc.IH show ?thesis
      using less_Suc_eq by blast
  next
    case (Inr x)
    with Suc.prems show ?thesis
      by (cases x) (auto split: sum.splits)
  qed
qed

lemma calls_return_spec_log:
  "calls_return B a b n w = (\<exists>h w'. spec_log B a b n w = Inr (h, w'))"
proof
  assume "calls_return B a b n w"
  then show "\<exists>h w'. spec_log B a b n w = Inr (h, w')"
  proof (induction n)
    case 0
    show ?case by simp
  next
    case (Suc n)
    then have "calls_return B a b n w"
      by (simp add: calls_return_def)
    with Suc.IH obtain h w' where "spec_log B a b n w = Inr (h, w')"
      by blast
    moreover from Suc.prems have
      "case spec_log B a b n w of Inl e \<Rightarrow> False
       | Inr (log, wi) \<Rightarrow>
           (case nextMove B a log 0 wi of Inl e \<Rightarrow> False
            | Inr (moveA, w1) \<Rightarrow>
                (case nextMove B b log 1 w1 of Inl e \<Rightarrow> False | Inr (moveB, w2) \<Rightarrow> True))"
      by (simp add: calls_return_def)
    ultimately show ?case
      by (auto simp: spec_round_def split: sum.splits)
  qed
next
  assume "\<exists>h w'. spec_log B a b n w = Inr (h, w')"
  then obtain h w' where run: "spec_log B a b n w = Inr (h, w')"
    by blast
  show "calls_return B a b n w"
    unfolding calls_return_def
  proof (intro allI impI)
    fix i assume "i < n"
    from spec_log_Suc_Inr [OF run this]
    show "case spec_log B a b i w of Inl e \<Rightarrow> False
       | Inr (log, wi) \<Rightarrow>
           (case nextMove B a log 0 wi of Inl e \<Rightarrow> False
            | Inr (moveA, w1) \<Rightarrow>
                (case nextMove B b log 1 w1 of Inl e \<Rightarrow> False | Inr (moveB, w2) \<Rightarrow> True))"
      by auto
  qed
qed

subsection \<open>The loop builds the log of the specification\<close>

lemma play_loop_spec:
  "spec_log B a b i w0 = Inr (hist, w) \<Longrightarrow> i \<le> n \<Longrightarrow>
   play_loop B a b n i hist w calls =
     (case spec_log B a b n w0 of
        Inl e \<Rightarrow> Inl e
      | Inr (h', w') \<Rightarrow> Inr (h', w', calls @ concat (map (round_calls h') [i..<n])))"
proof (induction "n - i" arbitrary: i hist w calls)
  case 0
  then have "i = n" by simp
  with 0 show ?case by (simp add: play_loop_exit)
next
  case (Suc k)
  then have lt: "i < n" by simp
  have len: "length hist = i"
    using Suc.prems(1) by (rule spec_log_length)
  show ?case
  proof (cases "spec_round B a b hist w")
    case (Inl e)
    then have "play_loop B a b n i hist w calls = Inl e"
      using lt by (auto simp: spec_round_Inl play_loop_fail_first play_loop_fail_second)
    moreover have "spec_log B a b (Suc i) w0 = Inl e"
      using Suc.prems(1) Inl by simp
    then have "spec_log B a b (Suc i + (n - Suc i)) w0 = Inl e"
      by (rule spec_log_fail)
    then have "spec_log B a b n w0 = Inl e"
      using lt by simp
    ultimately show ?thesis by simp
  next
    case (Inr x)
    obtain r w2 where x: "x = (r, w2)" by (cases x)
    with Inr obtain w1 where
      c1: "nextMove B a hist 0 w = Inr (p1 r, w1)" and
      c2: "nextMove B b hist 1 w1 = Inr (p2 r, w2)"
      by (auto simp: spec_round_Inr)
    have r: "\<lparr>p1 = p1 r, p2 = p2 r\<rparr> = r" by simp
    let ?calls = "calls @ [Call First hist 0 (p1 r), Call Second hist 1 (p2 r)]"
    have nxt: "spec_log B a b (Suc i) w0 = Inr (hist @ [r], w2)"
      using Suc.prems(1) Inr x by simp
    have step: "play_loop B a b n i hist w calls = play_loop B a b n (Suc i) (hist @ [r]) w2 ?calls"
      using play_loop_step [OF lt c1 c2, of calls] by (simp only: r)
    have "k = n - Suc i" "Suc i \<le> n"
      using Suc.hyps(2) lt by simp_all
    from Suc.hyps(1) [OF this(1) nxt this(2), of ?calls]
    have ih: "play_loop B a b n (Suc i) (hist @ [r]) w2 ?calls =
      (case spec_log B a b n w0 of
        Inl e \<Rightarrow> Inl e
      | Inr (h', w') \<Rightarrow> Inr (h', w', ?calls @ concat (map (round_calls h') [Suc i..<n])))" .
    show ?thesis
    proof (cases "spec_log B a b n w0")
      case (Inl e)
      with step ih show ?thesis by simp
    next
      case (Inr y)
      obtain h' w' where y: "y = (h', w')" by (cases y)
      from Inr y lt have "spec_log B a b (Suc i + (n - Suc i)) w0 = Inr (h', w')"
        by simp
      then obtain w3 where "spec_log B a b (Suc i) w0 = Inr (take (Suc i) h', w3)"
        by (blast dest: spec_log_take)
      with nxt have pre: "take (Suc i) h' = hist @ [r]"
        by simp
      then have "take i (take (Suc i) h') = hist" "take (Suc i) h' ! i = r"
        using len by (simp_all add: nth_append)
      then have "take i h' = hist" "h' ! i = r"
        by (simp_all add: min_def)
      then have rc: "round_calls h' i = [Call First hist 0 (p1 r), Call Second hist 1 (p2 r)]"
        by (simp add: round_calls_def)
      have upt: "[i..<n] = i # [Suc i..<n]"
        using lt by (simp add: upt_conv_Cons)
      show ?thesis
        using step ih Inr y by (simp add: upt rc)
    qed
  qed
qed

lemma play_rounds_spec:
  "play_rounds B mx a b n w =
     (if mx < n then Inl LengthError
      else case spec_log B a b n w of
             Inl e \<Rightarrow> Inl e
           | Inr (h, w') \<Rightarrow> Inr (h, w', match_calls h))"
proof (cases "mx < n")
  case True
  then show ?thesis by (simp add: play_rounds_def)
next
  case False
  have "spec_log B a b 0 w = Inr ([], w)" by simp
  from play_loop_spec [OF this, of n "[]"]
  show ?thesis
    using False by (auto simp: play_rounds_def match_calls_def dest: spec_log_length split: sum.splits)
qed

lemma play_of_rounds:
  "play_rounds B mx a b n w = Inr (history, w', calls) \<Longrightarrow>
   play B mx a b n w = Inr (map (\<lambda>r. spec_score (p1 r) (p2 r)) history, w', calls)"
  by (simp add: play_def score_rounds_map)

lemma play_of_rounds_fail:
  "play_rounds B mx a b n w = Inl e \<Longrightarrow> play B mx a b n w = Inl e"
  by (simp add: play_def)

subsection \<open>Players whose calls always return\<close>

lemma reliable_Random: "strategy p = Random \<Longrightarrow> reliable B p my_pos"
  by (simp add: reliable_def nextMove_Random prod_eq_iff)

lemma reliable_TitForTat:
  "strategy p = TitForTat \<Longrightarrow> my_pos = 0 \<or> my_pos = 1 \<Longrightarrow> reliable B p my_pos"
  unfolding reliable_def
  by (auto simp: nextMove_TitForTat TitForTat_nextMove_def Let_def prod_eq_iff)

lemma reliable_spec_log:
  assumes "reliable B a 0" and "reliable B b 1"
  shows "\<exists>h w'. spec_log B a b n w = Inr (h, w')"
proof (induction n)
  case 0
  show ?case by simp
next
  case (Suc n)
  then obtain h w' where prev: "spec_log B a b n w = Inr (h, w')"
    by blast
  from assms(1) obtain m1 w1 where "nextMove B a h 0 w' = Inr (m1, w1)"
    unfolding reliable_def by blast
  moreover from assms(2) obtain m2 w2 where "nextMove B b h 1 w1 = Inr (m2, w2)"
    unfolding reliable_def by blast
  ultimately show ?case
    using prev by (simp add: spec_round_def)
qed

lemma reliable_calls_return:
  "reliable B a 0 \<Longrightarrow> reliable B b 1 \<Longrightarrow> calls_return B a b n w"
  by (simp add: calls_return_spec_log reliable_spec_log)

lemma spec_score_zero: "(spec_score m1 m2 = 0) = (m1 = m2)"
  by (cases m1; cases m2) (simp_all add: spec_score_def)

lemma spec_score_range: "spec_score m1 m2 = - 1 \<or> spec_score m1 m2 = 0 \<or> spec_score m1 m2 = 1"
  by (simp add: spec_score_def)

lemma TitForTat_mirrors:
  assumes "strategy p = TitForTat" and "history \<noteq> []"
    and "nextMove B p history my_pos w = Inr (m, w')"
  shows "m = (if my_pos = 0 then p2 (last history) else p1 (last history))"
  using assms by (auto simp: nextMove_TitForTat TitForTat_nextMove_def Let_def split: if_splits)

subsection \<open>Concrete matches\<close>

lemma three_rounds_log:
  "spec_log (scripted [7, 1, 2]) random_player t4t_player 3 fresh_world
     = Inr ([\<lparr>p1 = Scissors, p2 = Rock\<rparr>, \<lparr>p1 = Paper, p2 = Scissors\<rparr>, \<lparr>p1 = Rock, p2 = Paper\<rparr>],
         fresh_world\<lparr>rmg := Some \<lparr>rng = [], dist = (1, 3)\<rparr>\<rparr>)"
  by code_simp

lemma tiring_log:
  "spec_log (scripted [7, 1, 2]) random_player tiring_player 3 fresh_world
     = Inl (OverrideRaised ''tired'')"
  by code_simp

lemma mirrors_log:
  "spec_log (scripted [1, 2]) t4t_player t4t_player 5 fresh_world
     = Inr ([\<lparr>p1 = Rock, p2 = Paper\<rparr>, \<lparr>p1 = Paper, p2 = Rock\<rparr>,
             \<lparr>p1 = Rock, p2 = Paper\<rparr>, \<lparr>p1 = Paper, p2 = Rock\<rparr>, \<lparr>p1 = Rock, p2 = Paper\<rparr>],
         fresh_world\<lparr>rmg := Some \<lparr>rng = [], dist = (1, 3)\<rparr>\<rparr>)"
  by code_simp

lemma mirrors_loop:
  "play_loop (scripted [1, 2]) t4t_player t4t_player 5 0 [] fresh_world []
     = Inr ([\<lparr>p1 = Rock, p2 = Paper\<rparr>, \<lparr>p1 = Paper, p2 = Rock\<rparr>,
             \<lparr>p1 = Rock, p2 = Paper\<rparr>, \<lparr>p1 = Paper, p2 = Rock\<rparr>, \<lparr>p1 = Rock, p2 = Paper\<rparr>],
         fresh_world\<lparr>rmg := Some \<lparr>rng = [], dist = (1, 3)\<rparr>\<rparr>,
         match_calls [\<lparr>p1 = Rock, p2 = Paper\<rparr>, \<lparr>p1 = Paper, p2 = Rock\<rparr>,
             \<lparr>p1 = Rock, p2 = Paper\<rparr>, \<lparr>p1 = Paper, p2 = Rock\<rparr>, \<lparr>p1 = Rock, p2 = Paper\<rparr>])"
  by code_simp

subsection \<open>The properties of a match\<close>

text \<open>
  C8. A match of no rounds returns the empty sequence of scores, leaves the world as it
  was and makes no call of \<^verbatim>\<open>nextMove\<close>, whatever the two players and the vector's
  \<^verbatim>\<open>max_size()\<close> are.
\<close>

theorem play_no_rounds:
  "play B max_size a b 0 w = Inr ([], w, [])"
  by (simp add: play_def play_rounds_def play_loop_exit score_rounds_def)

theorem play_no_rounds_witness:
  "play (scripted [1]) sample_max_size raising_player random_player 0 fresh_world
     = Inr ([], fresh_world, [])"
  using play_no_rounds [of "scripted [1]" sample_max_size raising_player random_player fresh_world] .

text \<open>
  C3, as the claim states it, fails for a player whose \<^verbatim>\<open>nextMove\<close> raises: the exception
  leaves \<^verbatim>\<open>play\<close>, which returns no scores.
\<close>

theorem play_raising_player:
  "play (scripted [1]) sample_max_size raising_player random_player 1 fresh_world
     = Inl (OverrideRaised ''next_move'')"
  by (simp add: play_def play_rounds_def sample_max_size_def play_loop_fail_first nextMove_def
      raising_player_def PlayerWrap_nextMove_def)

text \<open>
  C3 (amended). Let \<open>n\<close> be the number of rounds asked for. If \<open>n\<close> exceeds the vector's
  \<^verbatim>\<open>max_size()\<close>, \<^verbatim>\<open>play\<close> throws \<^verbatim>\<open>std::length_error\<close>. Otherwise, if every
  \<^verbatim>\<open>nextMove\<close> call of the match returns a move, \<^verbatim>\<open>play\<close> returns exactly \<open>n\<close> scores,
  the scores of the rounds of its history in order; the calls it makes are, round after
  round, the first player's at position 0 and then the second's at position 1, both with
  the rounds before the current one and nothing else, each in the world the calls before
  it left and each returning the move that the history records for it in that round. And
  if some call does not return a move, \<^verbatim>\<open>play\<close> returns no scores: it fails with the
  failure of the first such call, be it the first or the second player's, in whichever
  round, after the rounds before it went through.
\<close>

theorem play_rounds_in_order:
  "(max_size < n \<longrightarrow> play B max_size a b n w = Inl LengthError)
   \<and> (n \<le> max_size \<and> calls_return B a b n w \<longrightarrow>
        (\<exists>history scores w'.
            play B max_size a b n w = Inr (scores, w', match_calls history)
          \<and> play_rounds B max_size a b n w = Inr (history, w', match_calls history)
          \<and> score_rounds history = Inr scores
          \<and> length history = n \<and> length scores = n
          \<and> (\<forall>i < n. \<exists>wi w1 w2.
                spec_log B a b i w = Inr (take i history, wi)
              \<and> nextMove B a (take i history) 0 wi = Inr (p1 (history ! i), w1)
              \<and> nextMove B b (take i history) 1 w1 = Inr (p2 (history ! i), w2))))
   \<and> (n \<le> max_size \<and> \<not> calls_return B a b n w \<longrightarrow>
        (\<exists>e. play B max_size a b n w = Inl e
          \<and> (\<exists>i < n. \<exists>log wi.
                spec_log B a b i w = Inr (log, wi) \<and> length log = i
              \<and> (nextMove B a log 0 wi = Inl e
                  \<or> (\<exists>m1 w1. nextMove B a log 0 wi = Inr (m1, w1)
                        \<and> nextMove B b log 1 w1 = Inl e)))))"
proof (intro conjI impI)
  assume "max_size < n"
  then show "play B max_size a b n w = Inl LengthError"
    by (simp add: play_def play_rounds_def)
next
  assume "n \<le> max_size \<and> calls_return B a b n w"
  then have n: "\<not> max_size < n" and "calls_return B a b n w"
    by simp_all
  then obtain history w' where log: "spec_log B a b n w = Inr (history, w')"
    by (auto simp: calls_return_spec_log)
  let ?scores = "map (\<lambda>r. spec_score (p1 r) (p2 r)) history"
  have rounds: "play_rounds B max_size a b n w = Inr (history, w', match_calls history)"
    using n log by (simp add: play_rounds_spec)
  then have "play B max_size a b n w = Inr (?scores, w', match_calls history)"
    by (rule play_of_rounds)
  moreover have "score_rounds history = Inr ?scores"
    by (rule score_rounds_map)
  moreover have len: "length history = n"
    using log by (rule spec_log_length)
  moreover have "length ?scores = n"
    using len by simp
  moreover have "\<forall>i < n. \<exists>wi w1 w2.
                spec_log B a b i w = Inr (take i history, wi)
              \<and> nextMove B a (take i history) 0 wi = Inr (p1 (history ! i), w1)
              \<and> nextMove B b (take i history) 1 w1 = Inr (p2 (history ! i), w2)"
    using spec_log_Suc_Inr [OF log] by blast
  ultimately show "\<exists>history scores w'.
            play B max_size a b n w = Inr (scores, w', match_calls history)
          \<and> play_rounds B max_size a b n w = Inr (history, w', match_calls history)
          \<and> score_rounds history = Inr scores
          \<and> length history = n \<and> length scores = n
          \<and> (\<forall>i < n. \<exists>wi w1 w2.
                spec_log B a b i w = Inr (take i history, wi)
              \<and> nextMove B a (take i history) 0 wi = Inr (p1 (history ! i), w1)
              \<and> nextMove B b (take i history) 1 w1 = Inr (p2 (history ! i), w2))"
    using rounds by blast
next
  assume "n \<le> max_size \<and> \<not> calls_return B a b n w"
  then have n: "\<not> max_size < n" and "\<not> calls_return B a b n w"
    by simp_all
  then obtain e where log: "spec_log B a b n w = Inl e"
    by (cases "spec_log B a b n w") (auto simp: calls_return_spec_log)
  then have "play_rounds B max_size a b n w = Inl e"
    using n by (simp add: play_rounds_spec)
  then have fails: "play B max_size a b n w = Inl e"
    by (rule play_of_rounds_fail)
  from spec_log_first_failure [OF log]
  obtain i log' wi where i: "i < n" and at: "spec_log B a b i w = Inr (log', wi)"
    and rnd: "spec_round B a b log' wi = Inl e"
    by blast
  have "length log' = i"
    using at by (rule spec_log_length)
  moreover have "nextMove B a log' 0 wi = Inl e
      \<or> (\<exists>m1 w1. nextMove B a log' 0 wi = Inr (m1, w1) \<and> nextMove B b log' 1 w1 = Inl e)"
    using rnd by (simp add: spec_round_Inl)
  ultimately have "\<exists>i < n. \<exists>log wi.
                spec_log B a b i w = Inr (log, wi) \<and> length log = i
              \<and> (nextMove B a log 0 wi = Inl e
                  \<or> (\<exists>m1 w1. nextMove B a log 0 wi = Inr (m1, w1)
                        \<and> nextMove B b log 1 w1 = Inl e))"
    using i at by blast
  with fails show "\<exists>e. play B max_size a b n w = Inl e
          \<and> (\<exists>i < n. \<exists>log wi.
                spec_log B a b i w = Inr (log, wi) \<and> length log = i
              \<and> (nextMove B a log 0 wi = Inl e
                  \<or> (\<exists>m1 w1. nextMove B a log 0 wi = Inr (m1, w1)
                        \<and> nextMove B b log 1 w1 = Inl e)))"
    by blast
qed

theorem play_rounds_in_order_witness:
  "3 \<le> sample_max_size
   \<and> calls_return (scripted [7, 1, 2]) random_player t4t_player 3 fresh_world
   \<and> play (scripted [7, 1, 2]) sample_max_size random_player t4t_player 3 fresh_world
       = Inr ([1, 1, 1], fresh_world\<lparr>rmg := Some \<lparr>rng = [], dist = (1, 3)\<rparr>\<rparr>,
           match_calls [\<lparr>p1 = Scissors, p2 = Rock\<rparr>, \<lparr>p1 = Paper, p2 = Scissors\<rparr>,
             \<lparr>p1 = Rock, p2 = Paper\<rparr>])
   \<and> \<not> calls_return (scripted [7, 1, 2]) random_player tiring_player 3 fresh_world
   \<and> play (scripted [7, 1, 2]) sample_max_size random_player tiring_player 3 fresh_world
       = Inl (OverrideRaised ''tired'')
   \<and> (2 :: nat) < 3
   \<and> play (scripted [7, 1, 2]) 2 random_player t4t_player 3 fresh_world = Inl LengthError"
proof -
  let ?B = "scripted [7, 1, 2]"
  let ?H = "[\<lparr>p1 = Scissors, p2 = Rock\<rparr>, \<lparr>p1 = Paper, p2 = Scissors\<rparr>, \<lparr>p1 = Rock, p2 = Paper\<rparr>]"
  let ?W = "fresh_world\<lparr>rmg := Some \<lparr>rng = [], dist = (1, 3)\<rparr>\<rparr>"
  have mx: "3 \<le> sample_max_size"
    by (simp add: sample_max_size_def)
  have ok: "calls_return ?B random_player t4t_player 3 fresh_world"
    by (simp add: calls_return_spec_log three_rounds_log)
  have ko: "\<not> calls_return ?B random_player tiring_player 3 fresh_world"
    by (simp add: calls_return_spec_log tiring_log)
  note inst = play_rounds_in_order [where B = ?B and n = 3 and w = fresh_world and a = random_player]
  from inst [where b = t4t_player and max_size = sample_max_size] mx ok
  obtain history scores w' where
    run: "play ?B sample_max_size random_player t4t_player 3 fresh_world
            = Inr (scores, w', match_calls history)"
    and sc: "score_rounds history = Inr scores"
    and at: "\<forall>i < 3. \<exists>wi w1 w2.
                spec_log ?B random_player t4t_player i fresh_world = Inr (take i history, wi)
              \<and> nextMove ?B random_player (take i history) 0 wi = Inr (p1 (history ! i), w1)
              \<and> nextMove ?B t4t_player (take i history) 1 w1 = Inr (p2 (history ! i), w2)"
    and rounds: "play_rounds ?B sample_max_size random_player t4t_player 3 fresh_world
            = Inr (history, w', match_calls history)"
    by blast
  have "play_rounds ?B sample_max_size random_player t4t_player 3 fresh_world
            = Inr (?H, ?W, match_calls ?H)"
    using mx by (simp add: play_rounds_spec three_rounds_log)
  with rounds have h: "history = ?H" and w: "w' = ?W"
    by simp_all
  have "score_rounds ?H = Inr [1, 1, 1]"
    by (simp add: score_rounds_def score_table)
  with sc h have s: "scores = [1, 1, 1]"
    by simp
  from inst [where b = tiring_player and max_size = sample_max_size] mx ko
  obtain e where fails: "play ?B sample_max_size random_player tiring_player 3 fresh_world = Inl e"
    by blast
  have "play_rounds ?B sample_max_size random_player tiring_player 3 fresh_world
          = Inl (OverrideRaised ''tired'')"
    using mx by (simp add: play_rounds_spec tiring_log)
  then have "play ?B sample_max_size random_player tiring_player 3 fresh_world
          = Inl (OverrideRaised ''tired'')"
    by (rule play_of_rounds_fail)
  with fails have e: "e = OverrideRaised ''tired''"
    by simp
  from inst [where b = t4t_player and max_size = 2]
  have big: "play ?B 2 random_player t4t_player 3 fresh_world = Inl LengthError"
    by simp
  from mx ok ko run h w s fails e big show ?thesis
    by simp
qed

text \<open>
  C2, as the claim states it, fails when the two random moves of round 0 differ: after
  Rock against Paper the two mirrors swap their moves in every round, and no round is a
  tie.
\<close>

theorem mirrors_need_not_tie:
  "returned (play (scripted [1, 2]) sample_max_size t4t_player t4t_player 5 fresh_world)
     = Inr [1, - 1, 1, - 1, 1]"
  by (simp add: returned_def play_def play_rounds_def sample_max_size_def mirrors_loop
      score_rounds_def score_table)

text \<open>
  C2 (amended). When two TitForTat players play a match of \<open>n\<close> rounds (5, or any other
  number up to the vector's \<^verbatim>\<open>max_size()\<close>), the match returns the \<open>n\<close> scores of its
  rounds, each -1, 0 or 1; in every round from round 1 on each side plays the move of its
  opponent in the round before; so the score of each such round is the negated score of
  the round before it, it is 0 exactly when the two moves of round 0 were equal, and
  when they were not, the scores alternate between 1 and -1.
\<close>

theorem mirror_match:
  assumes a: "strategy a = TitForTat" and b: "strategy b = TitForTat" and n: "n \<le> max_size"
  shows "\<exists>history scores w'.
      play_rounds B max_size a b n w = Inr (history, w', match_calls history)
    \<and> play B max_size a b n w = Inr (scores, w', match_calls history)
    \<and> score_rounds history = Inr scores
    \<and> length history = n \<and> length scores = n
    \<and> (\<forall>i < n. scores ! i = - 1 \<or> scores ! i = 0 \<or> scores ! i = 1)
    \<and> (\<forall>i. 1 \<le> i \<and> i < n \<longrightarrow>
          p1 (history ! i) = p2 (history ! (i - 1))
        \<and> p2 (history ! i) = p1 (history ! (i - 1))
        \<and> scores ! i = - (scores ! (i - 1))
        \<and> (scores ! i = 0) = (p1 (history ! 0) = p2 (history ! 0))
        \<and> (p1 (history ! 0) \<noteq> p2 (history ! 0) \<longrightarrow>
              (scores ! (i - 1) = 1 \<and> scores ! i = - 1)
            \<or> (scores ! (i - 1) = - 1 \<and> scores ! i = 1)))"
proof -
  have ra: "reliable B a 0" and rb: "reliable B b 1"
    using a b by (simp_all add: reliable_TitForTat)
  from reliable_spec_log [OF ra rb, of n w]
  obtain history w' where log: "spec_log B a b n w = Inr (history, w')"
    by blast
  have run: "play_rounds B max_size a b n w = Inr (history, w', match_calls history)"
    using n log by (simp add: play_rounds_spec)
  have len: "length history = n"
    using log by (rule spec_log_length)
  let ?scores = "map (\<lambda>r. spec_score (p1 r) (p2 r)) history"
  have play: "play B max_size a b n w = Inr (?scores, w', match_calls history)"
    using run by (rule play_of_rounds)
  have sc: "score_rounds history = Inr ?scores"
    by (rule score_rounds_map)
  have lens: "length ?scores = n"
    using len by simp
  have at: "?scores ! i = spec_score (p1 (history ! i)) (p2 (history ! i))" if "i < n" for i
    using that len by simp
  have range: "\<forall>i < n. ?scores ! i = - 1 \<or> ?scores ! i = 0 \<or> ?scores ! i = 1"
    using at spec_score_range by simp
  have swap: "p1 (history ! i) = p2 (history ! (i - 1)) \<and> p2 (history ! i) = p1 (history ! (i - 1))"
    if "1 \<le> i" "i < n" for i
  proof -
    from spec_log_Suc_Inr [OF log that(2)] obtain wi w1 w2 where
      m1: "nextMove B a (take i history) 0 wi = Inr (p1 (history ! i), w1)" and
      m2: "nextMove B b (take i history) 1 w1 = Inr (p2 (history ! i), w2)"
      by blast
    have ne: "take i history \<noteq> []"
      using that len by auto
    have la: "last (take i history) = history ! (i - 1)"
      using that len ne by (simp add: last_conv_nth)
    show ?thesis
      using TitForTat_mirrors [OF a ne m1] TitForTat_mirrors [OF b ne m2] la by simp
  qed
  have tie: "(p1 (history ! i) = p2 (history ! i)) = (p1 (history ! 0) = p2 (history ! 0))"
    if "i < n" for i
    using that
  proof (induction i)
    case 0
    show ?case by simp
  next
    case (Suc i)
    then have "(p1 (history ! i) = p2 (history ! i)) = (p1 (history ! 0) = p2 (history ! 0))"
      by simp
    moreover have "p1 (history ! Suc i) = p2 (history ! i) \<and> p2 (history ! Suc i) = p1 (history ! i)"
      using swap [of "Suc i"] Suc.prems by simp
    ultimately show ?case by auto
  qed
  have later: "\<forall>i. 1 \<le> i \<and> i < n \<longrightarrow>
          p1 (history ! i) = p2 (history ! (i - 1))
        \<and> p2 (history ! i) = p1 (history ! (i - 1))
        \<and> ?scores ! i = - (?scores ! (i - 1))
        \<and> (?scores ! i = 0) = (p1 (history ! 0) = p2 (history ! 0))
        \<and> (p1 (history ! 0) \<noteq> p2 (history ! 0) \<longrightarrow>
              (?scores ! (i - 1) = 1 \<and> ?scores ! i = - 1)
            \<or> (?scores ! (i - 1) = - 1 \<and> ?scores ! i = 1))"
  proof (intro allI impI)
    fix i assume i: "1 \<le> i \<and> i < n"
    then have s: "p1 (history ! i) = p2 (history ! (i - 1))" "p2 (history ! i) = p1 (history ! (i - 1))"
      using swap [of i] by simp_all
    have si: "?scores ! i = spec_score (p1 (history ! i)) (p2 (history ! i))"
      using i at by simp
    have "i - 1 < n"
      using i by auto
    then have sp: "?scores ! (i - 1) = spec_score (p1 (history ! (i - 1))) (p2 (history ! (i - 1)))"
      by (rule at)
    have neg: "?scores ! i = - (?scores ! (i - 1))"
      using si sp s spec_score_swap [of "p2 (history ! (i - 1))" "p1 (history ! (i - 1))"] by simp
    have zero: "(?scores ! i = 0) = (p1 (history ! 0) = p2 (history ! 0))"
      using i si tie [of i] by (simp add: spec_score_zero)
    have "?scores ! i = - 1 \<or> ?scores ! i = 0 \<or> ?scores ! i = 1"
      using range i by blast
    with neg zero have alt: "p1 (history ! 0) \<noteq> p2 (history ! 0) \<longrightarrow>
              (?scores ! (i - 1) = 1 \<and> ?scores ! i = - 1)
            \<or> (?scores ! (i - 1) = - 1 \<and> ?scores ! i = 1)"
      by auto
    from s neg zero alt
    show "p1 (history ! i) = p2 (history ! (i - 1))
        \<and> p2 (history ! i) = p1 (history ! (i - 1))
        \<and> ?scores ! i = - (?scores ! (i - 1))
        \<and> (?scores ! i = 0) = (p1 (history ! 0) = p2 (history ! 0))
        \<and> (p1 (history ! 0) \<noteq> p2 (history ! 0) \<longrightarrow>
              (?scores ! (i - 1) = 1 \<and> ?scores ! i = - 1)
            \<or> (?scores ! (i - 1) = - 1 \<and> ?scores ! i = 1))"
      by blast
  qed
  from run play sc len lens range later show ?thesis
    by blast
qed

theorem mirror_match_witness:
  "strategy t4t_player = TitForTat
   \<and> 5 \<le> sample_max_size
   \<and> play (scripted [1, 2]) sample_max_size t4t_player t4t_player 5 fresh_world
       = Inr ([1, - 1, 1, - 1, 1], fresh_world\<lparr>rmg := Some \<lparr>rng = [], dist = (1, 3)\<rparr>\<rparr>,
           match_calls [\<lparr>p1 = Rock, p2 = Paper\<rparr>, \<lparr>p1 = Paper, p2 = Rock\<rparr>,
             \<lparr>p1 = Rock, p2 = Paper\<rparr>, \<lparr>p1 = Paper, p2 = Rock\<rparr>, \<lparr>p1 = Rock, p2 = Paper\<rparr>])"
proof -
  let ?B = "scripted [1, 2]"
  let ?H = "[\<lparr>p1 = Rock, p2 = Paper\<rparr>, \<lparr>p1 = Paper, p2 = Rock\<rparr>,
             \<lparr>p1 = Rock, p2 = Paper\<rparr>, \<lparr>p1 = Paper, p2 = Rock\<rparr>, \<lparr>p1 = Rock, p2 = Paper\<rparr>]"
  have t: "strategy t4t_player = TitForTat"
    by (simp add: t4t_player_def)
  have mx: "5 \<le> sample_max_size"
    by (simp add: sample_max_size_def)
  from mirror_match [OF t t mx, of ?B fresh_world]
  obtain history scores w' where
    rounds: "play_rounds ?B sample_max_size t4t_player t4t_player 5 fresh_world
               = Inr (history, w', match_calls history)"
    and run: "play ?B sample_max_size t4t_player t4t_player 5 fresh_world
               = Inr (scores, w', match_calls history)"
    and sc: "score_rounds history = Inr scores"
    and len: "length scores = 5"
    and later: "\<forall>i. 1 \<le> i \<and> i < 5 \<longrightarrow> scores ! i = - (scores ! (i - 1))"
    by blast
  have "play_rounds ?B sample_max_size t4t_player t4t_player 5 fresh_world
          = Inr (?H, fresh_world\<lparr>rmg := Some \<lparr>rng = [], dist = (1, 3)\<rparr>\<rparr>, match_calls ?H)"
    using mx by (simp add: play_rounds_spec mirrors_log)
  with rounds have h: "history = ?H" and w: "w' = fresh_world\<lparr>rmg := Some \<lparr>rng = [], dist = (1, 3)\<rparr>\<rparr>"
    by simp_all
  have "score_rounds ?H = Inr (map (\<lambda>r. spec_score (p1 r) (p2 r)) ?H)"
    by (rule score_rounds_map)
  with sc h have "scores ! 0 = 1"
    by (auto simp: spec_score_def)
  moreover from later [rule_format, of 1] later [rule_format, of 2] later [rule_format, of 3]
    later [rule_format, of 4]
  have "scores ! 1 = - (scores ! 0)" "scores ! 2 = - (scores ! 1)"
    "scores ! 3 = - (scores ! 2)" "scores ! 4 = - (scores ! 3)"
    by simp_all
  ultimately have "scores ! 0 = 1" "scores ! 1 = - 1" "scores ! 2 = 1" "scores ! 3 = - 1"
    "scores ! 4 = 1"
    by simp_all
  with len have "scores = [1, - 1, 1, - 1, 1]"
    by (simp add: list_eq_iff_nth_eq less_Suc_eq numeral_nat)
  with run h w t mx show ?thesis
    by simp
qed

end
